theory Spec2Isabelle
  imports Main
begin

section \<open>The contact directory of \<^verbatim>\<open>main.go\<close>\<close>

text \<open>
  The program keeps a slice of contacts in memory, looks contacts up by name without
  regard to case, and adds, deletes and modifies them. This theory embeds the functions
  of \<^verbatim>\<open>main.go\<close> that work on the directory and proves what they do.

  A Go \<^verbatim>\<open>string\<close> is a sequence of bytes, here a \<^typ>\<open>string\<close> (a list of 8-bit
  characters). A method with a pointer receiver that returns an \<^verbatim>\<open>error\<close> becomes a
  function from the directory to the pair of the directory after the call and the error
  (\<open>None\<close> for \<^verbatim>\<open>nil\<close>), so that what a failing call leaves behind is part of the
  model. The pointer \<^verbatim>\<open>&a.Contacts[i]\<close> returned by the lookup is the index \<open>i\<close>.
\<close>

subsection \<open>Package \<^verbatim>\<open>strings\<close>\<close>

text \<open>
  The program calls \<^verbatim>\<open>strings.ToLower\<close> and \<^verbatim>\<open>strings.TrimSpace\<close>. They belong to Go's
  library, not to the program: \<^verbatim>\<open>ToLower\<close> maps every Unicode letter to its lower case
  and \<^verbatim>\<open>TrimSpace\<close> removes the Unicode white space at both ends. The functions of the
  program take the package as a parameter, written \<open>strings\<close>, so that
  \<open>ToLower strings s\<close> reads as \<^verbatim>\<open>strings.ToLower(s)\<close>. What is proved below holds for
  whatever the two functions compute; where a property of them is needed, the theorem
  states it as a hypothesis.
\<close>

record paquet_strings =
  ToLower :: "string \<Rightarrow> string"
  TrimSpace :: "string \<Rightarrow> string"

subsection \<open>Data\<close>

record Contact =
  Nom :: string
  Prenom :: string
  Tel :: string

record Annuaire =
  Contacts :: "Contact list"

text \<open>
  The errors are built with \<^verbatim>\<open>fmt.Errorf\<close>; one constructor stands for each message,
  with the name the message quotes.
\<close>

datatype erreur =
    ContactExisteDeja string
  | NomVide
  | TelVide
  | AucunContactTrouve string
  | ErreurLecture
  | ErreurParsingJSON
  | ErreurSerialisation
  | ErreurEcriture

subsection \<open>Lookup\<close>

fun rechercher_boucle ::
  "paquet_strings \<Rightarrow> string \<Rightarrow> Contact list \<Rightarrow> nat \<Rightarrow> nat option" where
  "rechercher_boucle strings nomLower [] i = None"
| "rechercher_boucle strings nomLower (c # reste) i =
     (if ToLower strings (Nom c) = nomLower then Some i
      else rechercher_boucle strings nomLower reste (i + 1))"

definition rechercherContact :: "paquet_strings \<Rightarrow> Annuaire \<Rightarrow> string \<Rightarrow> nat option" where
  "rechercherContact strings a nom =
     rechercher_boucle strings (ToLower strings nom) (Contacts a) 0"

subsection \<open>Add, delete, modify\<close>

definition ajouterContact ::
  "paquet_strings \<Rightarrow> Annuaire \<Rightarrow> string \<Rightarrow> string \<Rightarrow> string \<Rightarrow> Annuaire \<times> erreur option" where
  "ajouterContact strings a nom prenom tel =
     (if rechercherContact strings a nom \<noteq> None then (a, Some (ContactExisteDeja nom))
      else if nom = [] then (a, Some NomVide)
      else if tel = [] then (a, Some TelVide)
      else
        let contact = \<lparr>Nom = TrimSpace strings nom, Prenom = TrimSpace strings prenom,
                       Tel = TrimSpace strings tel\<rparr>
        in (a\<lparr>Contacts := Contacts a @ [contact]\<rparr>, None))"

fun supprimer_boucle ::
  "paquet_strings \<Rightarrow> Contact list \<Rightarrow> string \<Rightarrow> nat \<Rightarrow> Contact list \<Rightarrow> Contact list option"
  where
  "supprimer_boucle strings contacts nomLower i [] = None"
| "supprimer_boucle strings contacts nomLower i (contact # reste) =
     (if ToLower strings (Nom contact) = nomLower
      then Some (take i contacts @ drop (i + 1) contacts)
      else supprimer_boucle strings contacts nomLower (i + 1) reste)"

definition supprimerContact ::
  "paquet_strings \<Rightarrow> Annuaire \<Rightarrow> string \<Rightarrow> Annuaire \<times> erreur option" where
  "supprimerContact strings a nom =
     (case supprimer_boucle strings (Contacts a) (ToLower strings nom) 0 (Contacts a) of
        Some restants \<Rightarrow> (a\<lparr>Contacts := restants\<rparr>, None)
      | None \<Rightarrow> (a, Some (AucunContactTrouve nom)))"

definition modifierContact ::
  "paquet_strings \<Rightarrow> Annuaire \<Rightarrow> string \<Rightarrow> string \<Rightarrow> string \<Rightarrow> Annuaire \<times> erreur option" where
  "modifierContact strings a nom nouveauPrenom nouveauTel =
     (case rechercherContact strings a nom of
        None \<Rightarrow> (a, Some (AucunContactTrouve nom))
      | Some i \<Rightarrow>
          let contact = Contacts a ! i;
              contact1 = (if nouveauPrenom \<noteq> []
                          then contact\<lparr>Prenom := TrimSpace strings nouveauPrenom\<rparr>
                          else contact);
              contact2 = (if nouveauTel \<noteq> []
                          then contact1\<lparr>Tel := TrimSpace strings nouveauTel\<rparr>
                          else contact1)
          in (a\<lparr>Contacts := (Contacts a)[i := contact2]\<rparr>, None))"

subsection \<open>The snapshot file\<close>

text \<open>
  \<^verbatim>\<open>chargerAnnuaire\<close> and \<^verbatim>\<open>sauvegarderAnnuaire\<close> reach the file
  \<^verbatim>\<open>annuaire.json\<close> through \<^verbatim>\<open>os.Stat\<close>, \<^verbatim>\<open>os.ReadFile\<close>, \<^verbatim>\<open>os.WriteFile\<close>,
  \<^verbatim>\<open>json.MarshalIndent\<close> and \<^verbatim>\<open>json.Unmarshal\<close>. These belong to Go's library, not to
  the program, and are modelled at the level the program depends on.

  \<^item> What \<^verbatim>\<open>json.Unmarshal\<close> does with the bytes of a file depends only on whether they
    are a JSON text and on the value the text denotes. The bytes are therefore modelled
    by \<open>Malforme\<close> (not a JSON text) or \<open>Texte v\<close> (a JSON text of the value \<open>v\<close>);
    white space, indentation and escape sequences are not modelled, and writing a value
    and reading the text back is taken to give the value. The strings of a value are
    the Go strings that \<^verbatim>\<open>json.Unmarshal\<close> makes of the string literals of the text.
  \<^item> The members of an object are kept in the order of the text, with their repetitions.
  \<^item> \<^verbatim>\<open>json.Marshal\<close> coerces every string to valid UTF-8: each byte that starts no
    well-formed UTF-8 sequence is replaced by U+FFFD (the bytes \<^verbatim>\<open>EF BF BD\<close>).
  \<^item> The slice of the model is a list, which does not tell \<^verbatim>\<open>nil\<close> from an empty
    slice; Go writes the first as \<^verbatim>\<open>null\<close> and the second as \<^verbatim>\<open>[]\<close>, and reads
    either back as a slice without elements.
\<close>

datatype json =
    JNull
  | JBool bool
  | JNumber string
  | JString string
  | JArray "json list"
  | JObject "(string \<times> json) list"

datatype donnees = Malforme | Texte json

subsubsection \<open>Well-formed UTF-8, as \<^verbatim>\<open>utf8.DecodeRuneInString\<close> accepts it\<close>

definition entre :: "char \<Rightarrow> nat \<Rightarrow> nat \<Rightarrow> bool" where
  "entre c lo hi = (lo \<le> of_char c \<and> (of_char c :: nat) \<le> hi)"

text \<open>
  \<open>utf8_taille s\<close> is the number of bytes of the well-formed sequence at the head of
  \<open>s\<close>, and \<open>None\<close> where Go returns \<^verbatim>\<open>(RuneError, 1)\<close> or, for the empty string,
  \<^verbatim>\<open>(RuneError, 0)\<close>.
\<close>

fun utf8_taille :: "string \<Rightarrow> nat option" where
  "utf8_taille [] = None"
| "utf8_taille (c0 # s) =
     (let b0 = (of_char c0 :: nat) in
      if b0 < 128 then Some 1
      else if 194 \<le> b0 \<and> b0 \<le> 223 then
        (case s of
           c1 # _ \<Rightarrow> if entre c1 128 191 then Some 2 else None
         | _ \<Rightarrow> None)
      else if 224 \<le> b0 \<and> b0 \<le> 239 then
        (case s of
           c1 # c2 # _ \<Rightarrow>
             if entre c1 (if b0 = 224 then 160 else 128) (if b0 = 237 then 159 else 191)
                \<and> entre c2 128 191
             then Some 3 else None
         | _ \<Rightarrow> None)
      else if 240 \<le> b0 \<and> b0 \<le> 244 then
        (case s of
           c1 # c2 # c3 # _ \<Rightarrow>
             if entre c1 (if b0 = 240 then 144 else 128) (if b0 = 244 then 143 else 191)
                \<and> entre c2 128 191 \<and> entre c3 128 191
             then Some 4 else None
         | _ \<Rightarrow> None)
      else None)"

function utf8_ValidString :: "string \<Rightarrow> bool" where
  "utf8_ValidString [] = True"
| "utf8_ValidString (c # s) =
     (case utf8_taille (c # s) of
        None \<Rightarrow> False
      | Some n \<Rightarrow> utf8_ValidString (drop n (c # s)))"
  by pat_completeness auto
termination
proof (relation "measure length")
  show "wf (measure length)" by simp
next
  fix c s n
  assume "utf8_taille (c # s) = Some n"
  then have "0 < n" by (auto simp: Let_def split: if_splits list.splits)
  then show "(drop n (c # s), c # s) \<in> measure length" by simp
qed

function json_coerce :: "string \<Rightarrow> string" where
  "json_coerce [] = []"
| "json_coerce (c # s) =
     (case utf8_taille (c # s) of
        None \<Rightarrow> [CHR 0xEF, CHR 0xBF, CHR 0xBD] @ json_coerce s
      | Some n \<Rightarrow> take n (c # s) @ json_coerce (drop n (c # s)))"
  by pat_completeness auto
termination
proof (relation "measure length")
  show "wf (measure length)" by simp
next
  fix c :: char and s :: string
  show "(s, c # s) \<in> measure length" by simp
next
  fix c s n
  assume "utf8_taille (c # s) = Some n"
  then have "0 < n" by (auto simp: Let_def split: if_splits list.splits)
  then show "(drop n (c # s), c # s) \<in> measure length" by simp
qed

subsubsection \<open>\<^verbatim>\<open>json.MarshalIndent\<close> on an \<^verbatim>\<open>*Annuaire\<close>\<close>

text \<open>
  The keys are the tags of the struct fields (\<^verbatim>\<open>`json:"nom"`\<close> and so on), in the
  order of the fields. Marshalling this type cannot fail.
\<close>

definition marshal_Contact :: "Contact \<Rightarrow> json" where
  "marshal_Contact c =
     JObject [(''nom'', JString (json_coerce (Nom c))),
              (''prenom'', JString (json_coerce (Prenom c))),
              (''tel'', JString (json_coerce (Tel c)))]"

definition marshal_Annuaire :: "Annuaire \<Rightarrow> json" where
  "marshal_Annuaire a = JObject [(''contacts'', JArray (map marshal_Contact (Contacts a)))]"

definition json_MarshalIndent :: "Annuaire \<Rightarrow> donnees option" where
  "json_MarshalIndent a = Some (Texte (marshal_Annuaire a))"

subsubsection \<open>\<^verbatim>\<open>json.Unmarshal\<close> into an \<^verbatim>\<open>*Annuaire\<close>\<close>

text \<open>
  A key of an object selects the field whose tag it equals, and otherwise the first field
  whose tag it equals under the case folding of \<^verbatim>\<open>encoding/json\<close>; a key that selects
  no field is skipped. The folding is the library's and has changed between versions of
  Go: it is the parameter \<open>equalFold\<close> of the decoding functions, and what is proved
  about them holds for every folding. \<^verbatim>\<open>null\<close> leaves a string or a struct
  as it is and empties a slice. A JSON value of another kind than the field is an error;
  Go goes on decoding and reports the error at the end, and \<^verbatim>\<open>chargerAnnuaire\<close> then
  drops the directory, so the model stops at the error. An array is decoded into a
  slice element by element, each element over the element the slice held at that index,
  or over a zero \<^verbatim>\<open>Contact\<close> past the length of the slice.
\<close>

definition cle_champ ::
  "(string \<Rightarrow> string \<Rightarrow> bool) \<Rightarrow> string \<Rightarrow> string list \<Rightarrow> string option" where
  "cle_champ equalFold cle tags =
     (case find (\<lambda>t. t = cle) tags of
        Some t \<Rightarrow> Some t
      | None \<Rightarrow> find (\<lambda>t. equalFold t cle) tags)"

definition unmarshal_string :: "json \<Rightarrow> string \<Rightarrow> string option" where
  "unmarshal_string v ancien =
     (case v of JString s \<Rightarrow> Some s | JNull \<Rightarrow> Some ancien | _ \<Rightarrow> None)"

fun unmarshal_Contact_membres ::
  "(string \<Rightarrow> string \<Rightarrow> bool) \<Rightarrow> (string \<times> json) list \<Rightarrow> Contact \<Rightarrow> Contact option" where
  "unmarshal_Contact_membres equalFold [] c = Some c"
| "unmarshal_Contact_membres equalFold ((cle, v) # membres) c =
     (case cle_champ equalFold cle [''nom'', ''prenom'', ''tel''] of
        None \<Rightarrow> unmarshal_Contact_membres equalFold membres c
      | Some tag \<Rightarrow>
          if tag = ''nom'' then
            (case unmarshal_string v (Nom c) of
               None \<Rightarrow> None
             | Some s \<Rightarrow> unmarshal_Contact_membres equalFold membres (c\<lparr>Nom := s\<rparr>))
          else if tag = ''prenom'' then
            (case unmarshal_string v (Prenom c) of
               None \<Rightarrow> None
             | Some s \<Rightarrow> unmarshal_Contact_membres equalFold membres (c\<lparr>Prenom := s\<rparr>))
          else
            (case unmarshal_string v (Tel c) of
               None \<Rightarrow> None
             | Some s \<Rightarrow> unmarshal_Contact_membres equalFold membres (c\<lparr>Tel := s\<rparr>)))"

definition unmarshal_Contact ::
  "(string \<Rightarrow> string \<Rightarrow> bool) \<Rightarrow> json \<Rightarrow> Contact \<Rightarrow> Contact option" where
  "unmarshal_Contact equalFold v c =
     (case v of JObject membres \<Rightarrow> unmarshal_Contact_membres equalFold membres c
              | JNull \<Rightarrow> Some c
              | _ \<Rightarrow> None)"

fun unmarshal_elements ::
  "(string \<Rightarrow> string \<Rightarrow> bool) \<Rightarrow> json list \<Rightarrow> Contact list \<Rightarrow> Contact list option" where
  "unmarshal_elements equalFold [] anciens = Some []"
| "unmarshal_elements equalFold (v # vs) anciens =
     (case unmarshal_Contact equalFold v
             (case anciens of [] \<Rightarrow> \<lparr>Nom = [], Prenom = [], Tel = []\<rparr> | c # _ \<Rightarrow> c) of
        None \<Rightarrow> None
      | Some c \<Rightarrow>
          (case unmarshal_elements equalFold vs (tl anciens) of
             None \<Rightarrow> None
           | Some cs \<Rightarrow> Some (c # cs)))"

definition unmarshal_Contacts ::
  "(string \<Rightarrow> string \<Rightarrow> bool) \<Rightarrow> json \<Rightarrow> Contact list \<Rightarrow> Contact list option" where
  "unmarshal_Contacts equalFold v anciens =
     (case v of JArray vs \<Rightarrow> unmarshal_elements equalFold vs anciens
              | JNull \<Rightarrow> Some []
              | _ \<Rightarrow> None)"

fun unmarshal_Annuaire_membres ::
  "(string \<Rightarrow> string \<Rightarrow> bool) \<Rightarrow> (string \<times> json) list \<Rightarrow> Annuaire \<Rightarrow> Annuaire option" where
  "unmarshal_Annuaire_membres equalFold [] a = Some a"
| "unmarshal_Annuaire_membres equalFold ((cle, v) # membres) a =
     (case cle_champ equalFold cle [''contacts''] of
        None \<Rightarrow> unmarshal_Annuaire_membres equalFold membres a
      | Some tag \<Rightarrow>
          (case unmarshal_Contacts equalFold v (Contacts a) of
             None \<Rightarrow> None
           | Some cs \<Rightarrow> unmarshal_Annuaire_membres equalFold membres (a\<lparr>Contacts := cs\<rparr>)))"

definition json_Unmarshal ::
  "(string \<Rightarrow> string \<Rightarrow> bool) \<Rightarrow> donnees \<Rightarrow> Annuaire \<Rightarrow> Annuaire option" where
  "json_Unmarshal equalFold data a =
     (case data of
        Malforme \<Rightarrow> None
      | Texte v \<Rightarrow>
          (case v of JObject membres \<Rightarrow> unmarshal_Annuaire_membres equalFold membres a
                   | JNull \<Rightarrow> Some a
                   | _ \<Rightarrow> None))"

subsubsection \<open>The files\<close>

text \<open>
  A disk maps a file name to the file, if there is one. A file has its bytes and says
  whether the process may read and write it; \<open>creation\<close> says whether the process may
  create a file. \<^verbatim>\<open>os.WriteFile\<close> replaces the whole contents, and creates the file
  with mode \<^verbatim>\<open>0644\<close>. A call that fails is modelled as leaving the disk as it was.
\<close>

record fichier =
  contenu :: donnees
  lisible :: bool
  inscriptible :: bool

record disque =
  fichiers :: "string \<Rightarrow> fichier option"
  creation :: bool

definition fichierAnnuaire :: string where
  "fichierAnnuaire = ''annuaire.json''"

definition os_Stat_IsNotExist :: "disque \<Rightarrow> string \<Rightarrow> bool" where
  "os_Stat_IsNotExist d nom = (fichiers d nom = None)"

definition os_ReadFile :: "disque \<Rightarrow> string \<Rightarrow> donnees option" where
  "os_ReadFile d nom =
     (case fichiers d nom of
        None \<Rightarrow> None
      | Some f \<Rightarrow> if lisible f then Some (contenu f) else None)"

definition os_WriteFile :: "disque \<Rightarrow> string \<Rightarrow> donnees \<Rightarrow> disque \<times> bool" where
  "os_WriteFile d nom data =
     (case fichiers d nom of
        None \<Rightarrow>
          if creation d
          then (d\<lparr>fichiers := (fichiers d)
                   (nom \<mapsto> \<lparr>contenu = data, lisible = True, inscriptible = True\<rparr>)\<rparr>, True)
          else (d, False)
      | Some f \<Rightarrow>
          if inscriptible f
          then (d\<lparr>fichiers := (fichiers d)(nom \<mapsto> f\<lparr>contenu := data\<rparr>)\<rparr>, True)
          else (d, False))"

subsubsection \<open>Load and save\<close>

definition chargerAnnuaire :: "(string \<Rightarrow> string \<Rightarrow> bool) \<Rightarrow> disque \<Rightarrow> erreur + Annuaire" where
  "chargerAnnuaire equalFold d =
     (let annuaire = \<lparr>Contacts = []\<rparr> in
      if os_Stat_IsNotExist d fichierAnnuaire then Inr annuaire
      else
        case os_ReadFile d fichierAnnuaire of
          None \<Rightarrow> Inl ErreurLecture
        | Some data \<Rightarrow>
            (case json_Unmarshal equalFold data annuaire of
               None \<Rightarrow> Inl ErreurParsingJSON
             | Some annuaire' \<Rightarrow> Inr annuaire'))"

definition sauvegarderAnnuaire :: "disque \<Rightarrow> Annuaire \<Rightarrow> disque \<times> erreur option" where
  "sauvegarderAnnuaire d a =
     (case json_MarshalIndent a of
        None \<Rightarrow> (d, Some ErreurSerialisation)
      | Some data \<Rightarrow>
          (case os_WriteFile d fichierAnnuaire data of
             (d', True) \<Rightarrow> (d', None)
           | (d', False) \<Rightarrow> (d', Some ErreurEcriture)))"

subsection \<open>The invariant of the specification\<close>

text \<open>
  The specification asks that no two contacts of a directory have the same name without
  regard to case: the names in lower case are pairwise distinct.
\<close>

definition noms_uniques :: "paquet_strings \<Rightarrow> Annuaire \<Rightarrow> bool" where
  "noms_uniques strings a =
     distinct (map (\<lambda>c. ToLower strings (Nom c)) (Contacts a))"

subsection \<open>The library on strings of ASCII, for the examples\<close>

text \<open>
  On a string of bytes below \<^verbatim>\<open>0x80\<close>, \<^verbatim>\<open>strings.ToLower\<close> adds \<^verbatim>\<open>'a' - 'A'\<close> to every
  byte between \<^verbatim>\<open>'A'\<close> and \<^verbatim>\<open>'Z'\<close>, \<^verbatim>\<open>strings.TrimSpace\<close> removes from both ends the
  bytes tab, line feed, vertical tab, form feed, carriage return and space, and the
  folding of \<^verbatim>\<open>encoding/json\<close> compares without regard to the case of the letters.
  \<open>strings_ascii\<close> and \<open>equalFold_ascii\<close> compute this. They serve to run the functions
  of the program on examples: \<open>strings_ascii\<close> where the names and the arguments are
  ASCII, \<open>equalFold_ascii\<close> where the keys are. Every other theorem about the program is
  stated for an arbitrary package and an arbitrary folding.
\<close>

definition lower_byte :: "char \<Rightarrow> char" where
  "lower_byte c =
     (let n = (of_char c :: nat) in if 65 \<le> n \<and> n \<le> 90 then char_of (n + 32) else c)"

definition asciiSpace :: "char \<Rightarrow> bool" where
  "asciiSpace c =
     (let n = (of_char c :: nat) in n = 9 \<or> n = 10 \<or> n = 11 \<or> n = 12 \<or> n = 13 \<or> n = 32)"

definition ToLower_ascii :: "string \<Rightarrow> string" where
  "ToLower_ascii s = map lower_byte s"

definition TrimSpace_ascii :: "string \<Rightarrow> string" where
  "TrimSpace_ascii s = rev (dropWhile asciiSpace (rev (dropWhile asciiSpace s)))"

definition strings_ascii :: paquet_strings where
  "strings_ascii = \<lparr>ToLower = ToLower_ascii, TrimSpace = TrimSpace_ascii\<rparr>"

definition equalFold_ascii :: "string \<Rightarrow> string \<Rightarrow> bool" where
  "equalFold_ascii s t = (map lower_byte s = map lower_byte t)"

section \<open>Properties\<close>

subsection \<open>The two loops\<close>

lemma rechercher_boucle_None:
  "rechercher_boucle strings nl cs i = None \<longleftrightarrow>
   (\<forall>c\<in>set cs. ToLower strings (Nom c) \<noteq> nl)"
  by (induction cs arbitrary: i) auto

lemma rechercher_boucle_split:
  "(\<forall>x\<in>set xs. ToLower strings (Nom x) \<noteq> nl) \<Longrightarrow> ToLower strings (Nom c) = nl \<Longrightarrow>
   rechercher_boucle strings nl (xs @ c # ys) i = Some (i + length xs)"
  by (induction xs arbitrary: i) auto

lemma supprimer_boucle_None:
  "supprimer_boucle strings all nl i cs = None \<longleftrightarrow>
   (\<forall>c\<in>set cs. ToLower strings (Nom c) \<noteq> nl)"
  by (induction cs arbitrary: i) auto

lemma supprimer_boucle_split:
  "(\<forall>x\<in>set xs. ToLower strings (Nom x) \<noteq> nl) \<Longrightarrow> ToLower strings (Nom c) = nl \<Longrightarrow>
   supprimer_boucle strings (pre @ xs @ c # ys) nl (length pre) (xs @ c # ys) =
   Some (pre @ xs @ ys)"
proof (induction xs arbitrary: pre)
  case Nil
  then show ?case by simp
next
  case (Cons x xs)
  from Cons.prems have nx: "ToLower strings (Nom x) \<noteq> nl"
    and rest: "\<forall>x\<in>set xs. ToLower strings (Nom x) \<noteq> nl"
    by auto
  from Cons.IH [OF rest Cons.prems(2), of "pre @ [x]"] nx show ?case by simp
qed

lemma rechercherContact_None:
  "rechercherContact strings a nom = None \<longleftrightarrow>
   (\<forall>c\<in>set (Contacts a). ToLower strings (Nom c) \<noteq> ToLower strings nom)"
  by (simp add: rechercherContact_def rechercher_boucle_None)

lemma rechercherContact_split:
  assumes "Contacts a = xs @ c # ys"
    and "\<forall>x\<in>set xs. ToLower strings (Nom x) \<noteq> ToLower strings nom"
    and "ToLower strings (Nom c) = ToLower strings nom"
  shows "rechercherContact strings a nom = Some (length xs)"
  using assms rechercher_boucle_split [of xs strings "ToLower strings nom" c ys 0]
  by (simp add: rechercherContact_def)

lemma supprimerContact_split:
  assumes "Contacts a = xs @ c # ys"
    and "\<forall>x\<in>set xs. ToLower strings (Nom x) \<noteq> ToLower strings nom"
    and "ToLower strings (Nom c) = ToLower strings nom"
  shows "supprimerContact strings a nom = (a\<lparr>Contacts := xs @ ys\<rparr>, None)"
proof -
  from assms(2,3)
  have "supprimer_boucle strings ([] @ xs @ c # ys) (ToLower strings nom)
          (length ([]::Contact list)) (xs @ c # ys) = Some ([] @ xs @ ys)"
    by (rule supprimer_boucle_split)
  with assms(1) show ?thesis by (simp add: supprimerContact_def)
qed

subsection \<open>Lower case and white space of ASCII\<close>

text \<open>
  These lemmas are about \<open>strings_ascii\<close> only; they show that it meets the hypothesis
  of the theorem on untrimmed names below.
\<close>

lemma asciiSpace_lower_byte: "asciiSpace (lower_byte c) = asciiSpace c"
  by (auto simp: asciiSpace_def lower_byte_def Let_def)

lemma length_ToLower_ascii: "length (ToLower_ascii s) = length s"
  by (simp add: ToLower_ascii_def)

lemma dropWhile_asciiSpace_ToLower_ascii:
  "dropWhile asciiSpace (ToLower_ascii s) = ToLower_ascii (dropWhile asciiSpace s)"
  by (simp add: ToLower_ascii_def dropWhile_map comp_def asciiSpace_lower_byte)

lemma TrimSpace_ascii_ToLower_ascii:
  "TrimSpace_ascii (ToLower_ascii s) = ToLower_ascii (TrimSpace_ascii s)"
proof -
  have r: "rev (ToLower_ascii t) = ToLower_ascii (rev t)" for t
    by (simp add: ToLower_ascii_def rev_map)
  show ?thesis
    by (simp add: TrimSpace_ascii_def dropWhile_asciiSpace_ToLower_ascii r)
qed

lemma dropWhile_same_length: "length (dropWhile P xs) = length xs \<Longrightarrow> dropWhile P xs = xs"
  by (metis append_eq_conv_conj drop_all dual_order.refl length_append takeWhile_dropWhile_id add_cancel_left_left length_0_conv self_append_conv2)

lemma TrimSpace_ascii_same_length:
  assumes "length (TrimSpace_ascii s) = length s"
  shows "TrimSpace_ascii s = s"
proof -
  let ?d = "dropWhile asciiSpace s"
  have l1: "length (dropWhile asciiSpace (rev ?d)) \<le> length ?d"
    by (metis length_dropWhile_le length_rev)
  have l2: "length ?d \<le> length s" by (rule length_dropWhile_le)
  from assms have "length (dropWhile asciiSpace (rev ?d)) = length s"
    by (simp add: TrimSpace_ascii_def)
  with l1 l2 have e1: "length ?d = length s"
    and e2: "length (dropWhile asciiSpace (rev ?d)) = length (rev ?d)"
    by auto
  from e1 have d: "?d = s" by (rule dropWhile_same_length)
  from e2 have "dropWhile asciiSpace (rev ?d) = rev ?d" by (rule dropWhile_same_length)
  with d show ?thesis by (simp add: TrimSpace_ascii_def)
qed

lemma strings_ascii_garde_les_espaces:
  "(TrimSpace strings_ascii (ToLower strings_ascii s) = ToLower strings_ascii s) =
   (TrimSpace strings_ascii s = s)"
proof -
  have "(TrimSpace_ascii (ToLower_ascii s) = ToLower_ascii s) = (TrimSpace_ascii s = s)"
  proof
    assume "TrimSpace_ascii (ToLower_ascii s) = ToLower_ascii s"
    then have "ToLower_ascii (TrimSpace_ascii s) = ToLower_ascii s"
      by (simp add: TrimSpace_ascii_ToLower_ascii)
    then have "length (ToLower_ascii (TrimSpace_ascii s)) = length (ToLower_ascii s)"
      by simp
    then have "length (TrimSpace_ascii s) = length s"
      by (simp add: length_ToLower_ascii)
    then show "TrimSpace_ascii s = s" by (rule TrimSpace_ascii_same_length)
  next
    assume "TrimSpace_ascii s = s"
    then show "TrimSpace_ascii (ToLower_ascii s) = ToLower_ascii s"
      by (simp add: TrimSpace_ascii_ToLower_ascii)
  qed
  then show ?thesis by (simp add: strings_ascii_def)
qed

subsection \<open>Unique names\<close>

text \<open>
  Whatever the package computes, deleting and modifying keep the names distinct, and so
  does adding a name that trimming leaves as it is.
\<close>

lemma noms_list_update:
  "Nom y = Nom (cs ! i) \<Longrightarrow>
   map (\<lambda>c. ToLower strings (Nom c)) (cs[i := y]) = map (\<lambda>c. ToLower strings (Nom c)) cs"
proof (cases "i < length cs")
  case True
  assume "Nom y = Nom (cs ! i)"
  with True show ?thesis by (simp add: map_update list_update_same_conv)
next
  case False
  then have "cs[i := y] = cs" by (intro list_update_beyond) simp
  then show ?thesis by simp
qed

lemma supprimerContact_noms_uniques:
  assumes "noms_uniques strings a"
  shows "noms_uniques strings (fst (supprimerContact strings a nom))"
proof (cases "\<exists>c\<in>set (Contacts a). ToLower strings (Nom c) = ToLower strings nom")
  case False
  then have "supprimerContact strings a nom = (a, Some (AucunContactTrouve nom))"
    by (simp add: supprimerContact_def supprimer_boucle_None [THEN iffD2])
  with assms show ?thesis by simp
next
  case True
  then obtain xs c ys where s: "Contacts a = xs @ c # ys"
      "ToLower strings (Nom c) = ToLower strings nom"
      "\<forall>x\<in>set xs. ToLower strings (Nom x) \<noteq> ToLower strings nom"
    using split_list_first_prop
      [of "Contacts a" "\<lambda>c. ToLower strings (Nom c) = ToLower strings nom"] by blast
  from supprimerContact_split [OF s(1) s(3) s(2)]
  have "supprimerContact strings a nom = (a\<lparr>Contacts := xs @ ys\<rparr>, None)" .
  with assms s show ?thesis by (auto simp: noms_uniques_def)
qed

lemma modifierContact_noms_uniques:
  assumes "noms_uniques strings a"
  shows "noms_uniques strings (fst (modifierContact strings a nom nouveauPrenom nouveauTel))"
  using assms
  by (auto simp: modifierContact_def noms_uniques_def Let_def noms_list_update
           split: option.splits)

lemma ajouterContact_noms_uniques:
  assumes "noms_uniques strings a" and "TrimSpace strings nom = nom"
  shows "noms_uniques strings (fst (ajouterContact strings a nom prenom tel))"
  using assms
  by (auto simp: ajouterContact_def noms_uniques_def Let_def rechercherContact_None)

text \<open>
  Claim C1 says that no sequence of additions, deletions and modifications leads from a
  directory with distinct names to one where two contacts have the same name without
  regard to case. \<^verbatim>\<open>ajouterContact\<close> looks for the name as it is given and stores the
  name trimmed: in the directory that holds \<^verbatim>\<open>Dupont\<close>, adding \<^verbatim>\<open>" Dupont"\<close> (with a
  space in front) finds no contact, succeeds, and stores a second \<^verbatim>\<open>Dupont\<close>.
\<close>

theorem ajouterContact_doublon:
  "noms_uniques strings_ascii
     \<lparr>Contacts = [\<lparr>Nom = ''Dupont'', Prenom = ''Jean'', Tel = ''0123456789''\<rparr>]\<rparr> \<and>
   ajouterContact strings_ascii
     \<lparr>Contacts = [\<lparr>Nom = ''Dupont'', Prenom = ''Jean'', Tel = ''0123456789''\<rparr>]\<rparr>
     '' Dupont'' ''Paul'' ''0611'' =
   (\<lparr>Contacts = [\<lparr>Nom = ''Dupont'', Prenom = ''Jean'', Tel = ''0123456789''\<rparr>,
                  \<lparr>Nom = ''Dupont'', Prenom = ''Paul'', Tel = ''0611''\<rparr>]\<rparr>, None) \<and>
   \<not> noms_uniques strings_ascii
     \<lparr>Contacts = [\<lparr>Nom = ''Dupont'', Prenom = ''Jean'', Tel = ''0123456789''\<rparr>,
                  \<lparr>Nom = ''Dupont'', Prenom = ''Paul'', Tel = ''0611''\<rparr>]\<rparr>"
  by code_simp

subsection \<open>The fields of an added contact\<close>

text \<open>
  When no contact has the name and neither the name nor the telephone number is the
  empty string, the call succeeds and appends the three arguments, trimmed.
\<close>

lemma ajouterContact_succes:
  assumes "\<forall>c\<in>set (Contacts a). ToLower strings (Nom c) \<noteq> ToLower strings nom"
    and "nom \<noteq> []" and "tel \<noteq> []"
  shows "ajouterContact strings a nom prenom tel =
         (a\<lparr>Contacts := Contacts a @
              [\<lparr>Nom = TrimSpace strings nom, Prenom = TrimSpace strings prenom,
                Tel = TrimSpace strings tel\<rparr>]\<rparr>, None)"
  using assms by (simp add: ajouterContact_def rechercherContact_None [THEN iffD2])

text \<open>
  Claim C2 says that after a successful addition the name and the telephone number of
  the new contact are not empty and have no white space around them.
  \<^verbatim>\<open>ajouterContact\<close> compares its arguments with the empty string before it trims
  them: a name and a number made of spaces pass the two tests and are stored as empty
  strings.
\<close>

theorem ajouterContact_champs_vides:
  "ajouterContact strings_ascii \<lparr>Contacts = []\<rparr> ''  '' ''Jean'' '' '' =
   (\<lparr>Contacts = [\<lparr>Nom = [], Prenom = ''Jean'', Tel = []\<rparr>]\<rparr>, None)"
  by code_simp

subsection \<open>Adding a name that is already there\<close>

text \<open>
  Claim C5. When the directory holds a contact whose name equals \<open>nom\<close> without regard
  to case, that is, \<^verbatim>\<open>strings.ToLower\<close> gives the same string for both,
  \<^verbatim>\<open>ajouterContact\<close> returns the error that the contact exists already and leaves the
  directory as it was. The lookup is the first test of the function, before the tests
  for an empty name and an empty number: the result is this error whatever \<open>nom\<close>,
  \<open>prenom\<close> and \<open>tel\<close> are, also when \<open>nom\<close> or \<open>tel\<close> is empty. This holds whatever
  \<^verbatim>\<open>strings.ToLower\<close> and \<^verbatim>\<open>strings.TrimSpace\<close> compute.
\<close>

theorem ajouterContact_duplicate:
  "\<exists>c\<in>set (Contacts a). ToLower strings (Nom c) = ToLower strings nom \<Longrightarrow>
   ajouterContact strings a nom prenom tel = (a, Some (ContactExisteDeja nom))"
  by (simp add: ajouterContact_def rechercherContact_None)

theorem ajouterContact_duplicate_witness:
  "ToLower strings_ascii (Nom \<lparr>Nom = ''Dupont'', Prenom = ''Jean'', Tel = ''0123456789''\<rparr>) =
     ToLower strings_ascii ''dupont'' \<and>
   ajouterContact strings_ascii
     \<lparr>Contacts = [\<lparr>Nom = ''Dupont'', Prenom = ''Jean'', Tel = ''0123456789''\<rparr>]\<rparr>
     ''dupont'' [] [] =
   (\<lparr>Contacts = [\<lparr>Nom = ''Dupont'', Prenom = ''Jean'', Tel = ''0123456789''\<rparr>]\<rparr>,
    Some (ContactExisteDeja ''dupont''))"
proof -
  let ?c = "\<lparr>Nom = ''Dupont'', Prenom = ''Jean'', Tel = ''0123456789''\<rparr>"
  have h: "ToLower strings_ascii (Nom ?c) = ToLower strings_ascii ''dupont''"
    by code_simp
  then have "\<exists>c\<in>set (Contacts \<lparr>Contacts = [?c]\<rparr>).
      ToLower strings_ascii (Nom c) = ToLower strings_ascii ''dupont''" by simp
  from ajouterContact_duplicate [OF this] h show ?thesis by simp
qed

subsection \<open>Deleting\<close>

text \<open>
  Claim C6. When no contact has the name \<open>nom\<close> without regard to case,
  \<^verbatim>\<open>supprimerContact\<close> returns the error that no contact was found and leaves the
  directory as it was. When the contacts are \<open>xs @ c # ys\<close>, where \<open>c\<close> has the name and
  no contact of \<open>xs\<close> has it, the call succeeds and the contacts are \<open>xs @ ys\<close>: the first
  match is removed, and the others stay in their order. Two names are equal without
  regard to case when \<^verbatim>\<open>strings.ToLower\<close> gives the same string for both; the theorem
  holds whatever \<^verbatim>\<open>strings.ToLower\<close> computes.
\<close>

theorem supprimerContact_first_match:
  "((\<forall>c\<in>set (Contacts a). ToLower strings (Nom c) \<noteq> ToLower strings nom) \<longrightarrow>
      supprimerContact strings a nom = (a, Some (AucunContactTrouve nom))) \<and>
   (\<forall>xs c ys. Contacts a = xs @ c # ys \<and>
        (\<forall>x\<in>set xs. ToLower strings (Nom x) \<noteq> ToLower strings nom) \<and>
        ToLower strings (Nom c) = ToLower strings nom \<longrightarrow>
      supprimerContact strings a nom = (a\<lparr>Contacts := xs @ ys\<rparr>, None))"
proof (intro conjI allI impI)
  assume "\<forall>c\<in>set (Contacts a). ToLower strings (Nom c) \<noteq> ToLower strings nom"
  then have "supprimer_boucle strings (Contacts a) (ToLower strings nom) 0 (Contacts a) = None"
    by (simp add: supprimer_boucle_None)
  then show "supprimerContact strings a nom = (a, Some (AucunContactTrouve nom))"
    by (simp add: supprimerContact_def)
next
  fix xs c ys
  assume h: "Contacts a = xs @ c # ys \<and>
        (\<forall>x\<in>set xs. ToLower strings (Nom x) \<noteq> ToLower strings nom) \<and>
        ToLower strings (Nom c) = ToLower strings nom"
  then have h1: "Contacts a = xs @ c # ys"
    and h2: "\<forall>x\<in>set xs. ToLower strings (Nom x) \<noteq> ToLower strings nom"
    and h3: "ToLower strings (Nom c) = ToLower strings nom"
    by simp_all
  from h1 h2 h3 show "supprimerContact strings a nom = (a\<lparr>Contacts := xs @ ys\<rparr>, None)"
    by (rule supprimerContact_split)
qed

theorem supprimerContact_first_match_witness:
  "ToLower strings_ascii (Nom \<lparr>Nom = ''Dupont'', Prenom = ''Jean'', Tel = ''01''\<rparr>) \<noteq>
     ToLower strings_ascii ''MARTIN'' \<and>
   ToLower strings_ascii (Nom \<lparr>Nom = ''Martin'', Prenom = ''Luc'', Tel = ''02''\<rparr>) =
     ToLower strings_ascii ''MARTIN'' \<and>
   supprimerContact strings_ascii
     \<lparr>Contacts = [\<lparr>Nom = ''Dupont'', Prenom = ''Jean'', Tel = ''01''\<rparr>,
                  \<lparr>Nom = ''Martin'', Prenom = ''Luc'', Tel = ''02''\<rparr>,
                  \<lparr>Nom = ''Durand'', Prenom = ''Zoe'', Tel = ''03''\<rparr>]\<rparr> ''MARTIN'' =
   (\<lparr>Contacts = [\<lparr>Nom = ''Dupont'', Prenom = ''Jean'', Tel = ''01''\<rparr>,
                  \<lparr>Nom = ''Durand'', Prenom = ''Zoe'', Tel = ''03''\<rparr>]\<rparr>, None) \<and>
   supprimerContact strings_ascii
     \<lparr>Contacts = [\<lparr>Nom = ''Dupont'', Prenom = ''Jean'', Tel = ''01''\<rparr>,
                  \<lparr>Nom = ''Martin'', Prenom = ''Luc'', Tel = ''02''\<rparr>,
                  \<lparr>Nom = ''Durand'', Prenom = ''Zoe'', Tel = ''03''\<rparr>]\<rparr> ''Inconnu'' =
   (\<lparr>Contacts = [\<lparr>Nom = ''Dupont'', Prenom = ''Jean'', Tel = ''01''\<rparr>,
                  \<lparr>Nom = ''Martin'', Prenom = ''Luc'', Tel = ''02''\<rparr>,
                  \<lparr>Nom = ''Durand'', Prenom = ''Zoe'', Tel = ''03''\<rparr>]\<rparr>,
    Some (AucunContactTrouve ''Inconnu''))"
proof -
  let ?A = "\<lparr>Nom = ''Dupont'', Prenom = ''Jean'', Tel = ''01''\<rparr>"
  let ?B = "\<lparr>Nom = ''Martin'', Prenom = ''Luc'', Tel = ''02''\<rparr>"
  let ?C = "\<lparr>Nom = ''Durand'', Prenom = ''Zoe'', Tel = ''03''\<rparr>"
  let ?D = "\<lparr>Contacts = [?A, ?B, ?C]\<rparr>"
  have a: "ToLower strings_ascii (Nom ?A) \<noteq> ToLower strings_ascii ''MARTIN''" by code_simp
  have b: "ToLower strings_ascii (Nom ?B) = ToLower strings_ascii ''MARTIN''" by code_simp
  have none: "\<forall>c\<in>set (Contacts ?D).
      ToLower strings_ascii (Nom c) \<noteq> ToLower strings_ascii ''Inconnu''" by code_simp
  have split: "Contacts ?D = [?A] @ ?B # [?C] \<and>
      (\<forall>x\<in>set [?A]. ToLower strings_ascii (Nom x) \<noteq> ToLower strings_ascii ''MARTIN'') \<and>
      ToLower strings_ascii (Nom ?B) = ToLower strings_ascii ''MARTIN''"
    using a b by simp
  have del: "supprimerContact strings_ascii ?D ''MARTIN'' = (?D\<lparr>Contacts := [?A] @ [?C]\<rparr>, None)"
    using supprimerContact_first_match [of ?D strings_ascii "''MARTIN''"] split by blast
  have nf: "supprimerContact strings_ascii ?D ''Inconnu'' =
      (?D, Some (AucunContactTrouve ''Inconnu''))"
    using supprimerContact_first_match [of ?D strings_ascii "''Inconnu''"] none by blast
  from del nf a b show ?thesis by simp
qed

subsection \<open>Modifying\<close>

text \<open>
  Claim C4 says that \<^verbatim>\<open>modifierContact\<close> leaves a field as it is when the argument for
  it is empty, replaces it by the trimmed argument otherwise, and that no argument sets
  a field to the empty string. The last part fails: an argument made of spaces is not
  empty, and its trimmed value, the empty string, replaces the field.
\<close>

theorem modifierContact_efface_counterexample:
  "modifierContact strings_ascii
     \<lparr>Contacts = [\<lparr>Nom = ''Dupont'', Prenom = ''Jean'', Tel = ''0123456789''\<rparr>]\<rparr>
     ''Dupont'' '' '' ''  '' =
   (\<lparr>Contacts = [\<lparr>Nom = ''Dupont'', Prenom = [], Tel = []\<rparr>]\<rparr>, None)"
  by code_simp

text \<open>
  Claim C4, amended. Let the contacts be \<open>xs @ c # ys\<close>, where \<open>c\<close> is the first contact
  with the name \<open>nom\<close> without regard to case. \<^verbatim>\<open>modifierContact\<close> succeeds and changes
  \<open>c\<close> only: the first name of \<open>c\<close> stays when \<open>nouveauPrenom\<close> is empty and becomes
  \<^verbatim>\<open>strings.TrimSpace(nouveauPrenom)\<close> otherwise, and the same for the telephone number
  and \<open>nouveauTel\<close>; the name stays. A field is empty after the call exactly when the
  argument is empty and the field was empty before, or when the argument is not empty
  and \<^verbatim>\<open>strings.TrimSpace\<close> makes it empty. This holds whatever \<^verbatim>\<open>strings.ToLower\<close> and
  \<^verbatim>\<open>strings.TrimSpace\<close> compute.
\<close>

theorem modifierContact_champs:
  assumes "Contacts a = xs @ c # ys"
    and "\<forall>x\<in>set xs. ToLower strings (Nom x) \<noteq> ToLower strings nom"
    and "ToLower strings (Nom c) = ToLower strings nom"
  shows "let c' = c\<lparr>Prenom := (if nouveauPrenom = [] then Prenom c
                                else TrimSpace strings nouveauPrenom),
                    Tel := (if nouveauTel = [] then Tel c else TrimSpace strings nouveauTel)\<rparr>
         in modifierContact strings a nom nouveauPrenom nouveauTel =
              (a\<lparr>Contacts := xs @ c' # ys\<rparr>, None) \<and>
            (Prenom c' = [] \<longleftrightarrow>
               (if nouveauPrenom = [] then Prenom c = []
                else TrimSpace strings nouveauPrenom = [])) \<and>
            (Tel c' = [] \<longleftrightarrow>
               (if nouveauTel = [] then Tel c = [] else TrimSpace strings nouveauTel = []))"
proof -
  from assms have r: "rechercherContact strings a nom = Some (length xs)"
    by (rule rechercherContact_split)
  from assms(1) have c: "Contacts a ! length xs = c" by simp
  from assms(1) have u: "(Contacts a)[length xs := c''] = xs @ c'' # ys" for c''
    by simp
  show ?thesis
    by (simp add: modifierContact_def r c u Let_def)
qed

theorem modifierContact_champs_witness:
  "ToLower strings_ascii (Nom \<lparr>Nom = ''Dupont'', Prenom = ''Jean'', Tel = ''0123456789''\<rparr>) =
     ToLower strings_ascii ''dupont'' \<and>
   modifierContact strings_ascii
     \<lparr>Contacts = [\<lparr>Nom = ''Dupont'', Prenom = ''Jean'', Tel = ''0123456789''\<rparr>]\<rparr>
     ''dupont'' [] '' 0987654321'' =
   (\<lparr>Contacts = [\<lparr>Nom = ''Dupont'', Prenom = ''Jean'', Tel = ''0987654321''\<rparr>]\<rparr>, None)"
proof -
  let ?c = "\<lparr>Nom = ''Dupont'', Prenom = ''Jean'', Tel = ''0123456789''\<rparr>"
  let ?D = "\<lparr>Contacts = [?c]\<rparr>"
  have h1: "Contacts ?D = [] @ ?c # []" by simp
  have h2: "\<forall>x\<in>set []. ToLower strings_ascii (Nom x) \<noteq> ToLower strings_ascii ''dupont''"
    by simp
  have h3: "ToLower strings_ascii (Nom ?c) = ToLower strings_ascii ''dupont''" by code_simp
  have t: "TrimSpace strings_ascii '' 0987654321'' = ''0987654321''" by code_simp
  from modifierContact_champs [OF h1 h2 h3, where nouveauPrenom = "[]"
         and nouveauTel = "'' 0987654321''"] h3 t
  show ?thesis by (simp add: Let_def)
qed

subsection \<open>A call that fails changes nothing\<close>

text \<open>
  Claim C7. Whenever \<^verbatim>\<open>ajouterContact\<close>, \<^verbatim>\<open>supprimerContact\<close> or \<^verbatim>\<open>modifierContact\<close>
  returns an error, the directory after the call is the directory before the call.
\<close>

theorem erreur_laisse_annuaire:
  "(snd (ajouterContact strings a nom prenom tel) \<noteq> None \<longrightarrow>
      fst (ajouterContact strings a nom prenom tel) = a) \<and>
   (snd (supprimerContact strings a nom) \<noteq> None \<longrightarrow>
      fst (supprimerContact strings a nom) = a) \<and>
   (snd (modifierContact strings a nom nouveauPrenom nouveauTel) \<noteq> None \<longrightarrow>
      fst (modifierContact strings a nom nouveauPrenom nouveauTel) = a)"
  by (auto simp: ajouterContact_def supprimerContact_def modifierContact_def Let_def
           split: option.splits if_splits)

theorem erreur_laisse_annuaire_witness:
  "snd (ajouterContact strings_ascii
          \<lparr>Contacts = [\<lparr>Nom = ''Dupont'', Prenom = ''Jean'', Tel = ''01''\<rparr>]\<rparr>
          ''DUPONT'' ''Luc'' ''02'') \<noteq> None \<and>
   fst (ajouterContact strings_ascii
          \<lparr>Contacts = [\<lparr>Nom = ''Dupont'', Prenom = ''Jean'', Tel = ''01''\<rparr>]\<rparr>
          ''DUPONT'' ''Luc'' ''02'') =
     \<lparr>Contacts = [\<lparr>Nom = ''Dupont'', Prenom = ''Jean'', Tel = ''01''\<rparr>]\<rparr> \<and>
   snd (supprimerContact strings_ascii
          \<lparr>Contacts = [\<lparr>Nom = ''Dupont'', Prenom = ''Jean'', Tel = ''01''\<rparr>]\<rparr>
          ''Inconnu'') \<noteq> None \<and>
   fst (supprimerContact strings_ascii
          \<lparr>Contacts = [\<lparr>Nom = ''Dupont'', Prenom = ''Jean'', Tel = ''01''\<rparr>]\<rparr>
          ''Inconnu'') =
     \<lparr>Contacts = [\<lparr>Nom = ''Dupont'', Prenom = ''Jean'', Tel = ''01''\<rparr>]\<rparr> \<and>
   snd (modifierContact strings_ascii
          \<lparr>Contacts = [\<lparr>Nom = ''Dupont'', Prenom = ''Jean'', Tel = ''01''\<rparr>]\<rparr>
          ''Inconnu'' ''Luc'' ''02'') \<noteq> None \<and>
   fst (modifierContact strings_ascii
          \<lparr>Contacts = [\<lparr>Nom = ''Dupont'', Prenom = ''Jean'', Tel = ''01''\<rparr>]\<rparr>
          ''Inconnu'' ''Luc'' ''02'') =
     \<lparr>Contacts = [\<lparr>Nom = ''Dupont'', Prenom = ''Jean'', Tel = ''01''\<rparr>]\<rparr>"
proof -
  let ?D = "\<lparr>Contacts = [\<lparr>Nom = ''Dupont'', Prenom = ''Jean'', Tel = ''01''\<rparr>]\<rparr>"
  have e1: "snd (ajouterContact strings_ascii ?D ''DUPONT'' ''Luc'' ''02'') \<noteq> None"
    by code_simp
  have e2: "snd (supprimerContact strings_ascii ?D ''Inconnu'') \<noteq> None" by code_simp
  have e3: "snd (modifierContact strings_ascii ?D ''Inconnu'' ''Luc'' ''02'') \<noteq> None"
    by code_simp
  from erreur_laisse_annuaire [where strings = strings_ascii and a = ?D
         and nom = "''DUPONT''" and prenom = "''Luc''" and tel = "''02''"]
       erreur_laisse_annuaire [where strings = strings_ascii and a = ?D
         and nom = "''Inconnu''" and nouveauPrenom = "''Luc''" and nouveauTel = "''02''"]
       e1 e2 e3
  show ?thesis by simp
qed

subsection \<open>The name asked for is not trimmed\<close>

text \<open>
  \<^verbatim>\<open>strings.ToLower\<close> maps a string rune by rune (a byte that is not valid UTF-8 counts
  as the rune U+FFFD). No white space has a lower case other than itself, and no other
  rune has a white space as its lower case. A string therefore starts or ends with
  white space exactly when its lower case does: \<^verbatim>\<open>strings.TrimSpace\<close> leaves
  \<^verbatim>\<open>strings.ToLower(s)\<close> as it is exactly when it leaves \<open>s\<close> as it is. This property
  of the package is the first hypothesis of the theorem below.
\<close>

lemma untrimmed_never_matches:
  assumes garde: "\<And>s. (TrimSpace strings (ToLower strings s) = ToLower strings s) =
                      (TrimSpace strings s = s)"
    and n: "TrimSpace strings n = n" and q: "TrimSpace strings q \<noteq> q"
  shows "ToLower strings n \<noteq> ToLower strings q"
proof
  assume eq: "ToLower strings n = ToLower strings q"
  from n garde [of n] have "TrimSpace strings (ToLower strings n) = ToLower strings n"
    by simp
  with eq have "TrimSpace strings (ToLower strings q) = ToLower strings q" by simp
  with garde [of q] have "TrimSpace strings q = q" by simp
  with q show False by contradiction
qed

text \<open>
  Claim C9. The lookup, the deletion and the modification put the name they are given
  in lower case and do not trim it. In a directory whose names have no white space around
  them, a name \<open>q\<close> that is a stored name with white space added in front or behind
  (\<^verbatim>\<open>strings.TrimSpace(q)\<close> is the stored name and \<open>q\<close> is not) matches no contact:
  \<^verbatim>\<open>rechercherContact\<close> returns \<^verbatim>\<open>nil\<close>, and \<^verbatim>\<open>supprimerContact\<close> and
  \<^verbatim>\<open>modifierContact\<close> return the error that no contact was found and change nothing.
\<close>

theorem recherche_sans_trim:
  assumes garde: "\<And>s. (TrimSpace strings (ToLower strings s) = ToLower strings s) =
                      (TrimSpace strings s = s)"
    and trimmed: "\<forall>c\<in>set (Contacts a). TrimSpace strings (Nom c) = Nom c"
    and stored: "c \<in> set (Contacts a)"
    and same: "TrimSpace strings q = Nom c"
    and differs: "q \<noteq> Nom c"
  shows "rechercherContact strings a q = None \<and>
         supprimerContact strings a q = (a, Some (AucunContactTrouve q)) \<and>
         modifierContact strings a q nouveauPrenom nouveauTel =
           (a, Some (AucunContactTrouve q))"
proof -
  from same differs have q: "TrimSpace strings q \<noteq> q" by simp
  have nomatch: "\<forall>x\<in>set (Contacts a). ToLower strings (Nom x) \<noteq> ToLower strings q"
  proof
    fix x
    assume "x \<in> set (Contacts a)"
    with trimmed have "TrimSpace strings (Nom x) = Nom x" by simp
    with garde show "ToLower strings (Nom x) \<noteq> ToLower strings q"
      using q by (rule untrimmed_never_matches)
  qed
  then have r: "rechercherContact strings a q = None" by (simp add: rechercherContact_None)
  from nomatch have "supprimer_boucle strings (Contacts a) (ToLower strings q) 0 (Contacts a) = None"
    by (simp add: supprimer_boucle_None)
  then have s: "supprimerContact strings a q = (a, Some (AucunContactTrouve q))"
    by (simp add: supprimerContact_def)
  from r have m: "modifierContact strings a q nouveauPrenom nouveauTel =
      (a, Some (AucunContactTrouve q))"
    by (simp add: modifierContact_def)
  from r s m show ?thesis by simp
qed

theorem recherche_sans_trim_witness:
  "(\<forall>s. (TrimSpace strings_ascii (ToLower strings_ascii s) = ToLower strings_ascii s) =
         (TrimSpace strings_ascii s = s)) \<and>
   TrimSpace strings_ascii (Nom \<lparr>Nom = ''Dupont'', Prenom = ''Jean'', Tel = ''01''\<rparr>) =
     ''Dupont'' \<and>
   TrimSpace strings_ascii '' Dupont'' = ''Dupont'' \<and> '' Dupont'' \<noteq> ''Dupont'' \<and>
   rechercherContact strings_ascii
     \<lparr>Contacts = [\<lparr>Nom = ''Dupont'', Prenom = ''Jean'', Tel = ''01''\<rparr>]\<rparr> '' Dupont'' = None \<and>
   supprimerContact strings_ascii
     \<lparr>Contacts = [\<lparr>Nom = ''Dupont'', Prenom = ''Jean'', Tel = ''01''\<rparr>]\<rparr> '' Dupont'' =
     (\<lparr>Contacts = [\<lparr>Nom = ''Dupont'', Prenom = ''Jean'', Tel = ''01''\<rparr>]\<rparr>,
      Some (AucunContactTrouve '' Dupont'')) \<and>
   modifierContact strings_ascii
     \<lparr>Contacts = [\<lparr>Nom = ''Dupont'', Prenom = ''Jean'', Tel = ''01''\<rparr>]\<rparr>
     '' Dupont'' ''Luc'' ''02'' =
     (\<lparr>Contacts = [\<lparr>Nom = ''Dupont'', Prenom = ''Jean'', Tel = ''01''\<rparr>]\<rparr>,
      Some (AucunContactTrouve '' Dupont''))"
proof -
  let ?c = "\<lparr>Nom = ''Dupont'', Prenom = ''Jean'', Tel = ''01''\<rparr>"
  let ?D = "\<lparr>Contacts = [?c]\<rparr>"
  have g: "(TrimSpace strings_ascii (ToLower strings_ascii s) = ToLower strings_ascii s) =
           (TrimSpace strings_ascii s = s)" for s
    by (rule strings_ascii_garde_les_espaces)
  have t: "TrimSpace strings_ascii (Nom ?c) = ''Dupont''" by code_simp
  have q: "TrimSpace strings_ascii '' Dupont'' = ''Dupont''" by code_simp
  have h1: "\<forall>c\<in>set (Contacts ?D). TrimSpace strings_ascii (Nom c) = Nom c" using t by simp
  have h2: "?c \<in> set (Contacts ?D)" by simp
  have h3: "TrimSpace strings_ascii '' Dupont'' = Nom ?c" using q by simp
  have h4: "'' Dupont'' \<noteq> Nom ?c" by simp
  from recherche_sans_trim [OF g h1 h2 h3 h4, of "''Luc''" "''02''"] t q g
  show ?thesis by simp
qed

subsection \<open>Loading\<close>

text \<open>
  Claim C8. When the file \<^verbatim>\<open>annuaire.json\<close> does not exist, \<^verbatim>\<open>chargerAnnuaire\<close> returns
  a directory without contacts and no error.
\<close>

theorem chargerAnnuaire_fichier_absent:
  "fichiers d fichierAnnuaire = None \<Longrightarrow>
   chargerAnnuaire equalFold d = Inr \<lparr>Contacts = []\<rparr>"
  by (simp add: chargerAnnuaire_def os_Stat_IsNotExist_def)

theorem chargerAnnuaire_fichier_absent_witness:
  "fichiers \<lparr>fichiers = (\<lambda>nom. None), creation = False\<rparr> fichierAnnuaire = None \<and>
   chargerAnnuaire equalFold_ascii \<lparr>fichiers = (\<lambda>nom. None), creation = False\<rparr> =
     Inr \<lparr>Contacts = []\<rparr>"
  using chargerAnnuaire_fichier_absent
    [of "\<lparr>fichiers = (\<lambda>nom. None), creation = False\<rparr>" equalFold_ascii]
  by simp

text \<open>
  An object with the three keys and three strings is decoded into the contact with these
  fields, whatever the strings are, and an array of such objects into the list of these
  contacts.
\<close>

lemma cle_champ_nom: "cle_champ equalFold ''nom'' [''nom'', ''prenom'', ''tel''] = Some ''nom''"
  by (simp add: cle_champ_def)

lemma cle_champ_prenom: "cle_champ equalFold ''prenom'' [''nom'', ''prenom'', ''tel''] = Some ''prenom''"
  by (simp add: cle_champ_def)

lemma cle_champ_tel: "cle_champ equalFold ''tel'' [''nom'', ''prenom'', ''tel''] = Some ''tel''"
  by (simp add: cle_champ_def)

lemma cle_champ_contacts: "cle_champ equalFold ''contacts'' [''contacts''] = Some ''contacts''"
  by (simp add: cle_champ_def)

lemma unmarshal_Contact_objet:
  "unmarshal_Contact equalFold
     (JObject [(''nom'', JString n), (''prenom'', JString p), (''tel'', JString t)]) c0 =
   Some \<lparr>Nom = n, Prenom = p, Tel = t\<rparr>"
  by (simp add: unmarshal_Contact_def cle_champ_nom cle_champ_prenom cle_champ_tel
        unmarshal_string_def)

lemma unmarshal_elements_objets:
  "unmarshal_elements equalFold
     (map (\<lambda>c. JObject [(''nom'', JString (fn c)), (''prenom'', JString (fp c)),
                         (''tel'', JString (ft c))]) cs) anciens =
   Some (map (\<lambda>c. \<lparr>Nom = fn c, Prenom = fp c, Tel = ft c\<rparr>) cs)"
  by (induction cs arbitrary: anciens) (simp_all add: unmarshal_Contact_objet)

lemma json_Unmarshal_objets:
  "json_Unmarshal equalFold
     (Texte (JObject [(''contacts'', JArray
        (map (\<lambda>c. JObject [(''nom'', JString (fn c)), (''prenom'', JString (fp c)),
                            (''tel'', JString (ft c))]) cs))])) a =
   Some (a\<lparr>Contacts := map (\<lambda>c. \<lparr>Nom = fn c, Prenom = fp c, Tel = ft c\<rparr>) cs\<rparr>)"
  by (simp add: json_Unmarshal_def cle_champ_contacts unmarshal_Contacts_def
        unmarshal_elements_objets)

lemma Contact_eta: "map (\<lambda>c. \<lparr>Nom = Nom c, Prenom = Prenom c, Tel = Tel c\<rparr>) cs = cs"
  by (induction cs) simp_all

text \<open>
  Claim C10. \<^verbatim>\<open>chargerAnnuaire\<close> checks nothing about the contacts it reads. When the
  file can be read and holds an object whose member \<^verbatim>\<open>contacts\<close> is an array of objects
  with the members \<^verbatim>\<open>nom\<close>, \<^verbatim>\<open>prenom\<close> and \<^verbatim>\<open>tel\<close>, the call succeeds and returns
  exactly the contacts of the array, in their order, for every list of contacts: also
  with names that are equal without regard to case, with an empty name or number, and
  with white space around a field. A key that is a tag selects its field before any
  folding is tried, so this holds for every folding.
\<close>

theorem chargerAnnuaire_sans_validation:
  assumes "fichiers d fichierAnnuaire = Some f" and "lisible f"
    and "contenu f = Texte (JObject [(''contacts'', JArray
           (map (\<lambda>c. JObject [(''nom'', JString (Nom c)), (''prenom'', JString (Prenom c)),
                               (''tel'', JString (Tel c))]) cs))])"
  shows "chargerAnnuaire equalFold d = Inr \<lparr>Contacts = cs\<rparr>"
  using assms
  by (simp add: chargerAnnuaire_def os_Stat_IsNotExist_def os_ReadFile_def
        json_Unmarshal_objets Contact_eta)

theorem chargerAnnuaire_sans_validation_witness:
  "chargerAnnuaire equalFold_ascii
     \<lparr>fichiers = (\<lambda>nom. None)(fichierAnnuaire \<mapsto>
        \<lparr>contenu = Texte (JObject [(''contacts'', JArray
           [JObject [(''nom'', JString ''Dupont''), (''prenom'', JString ''Jean''),
                     (''tel'', JString ''01'')],
            JObject [(''nom'', JString ''DUPONT''), (''prenom'', JString '' Luc''),
                     (''tel'', JString [])],
            JObject [(''nom'', JString []), (''prenom'', JString []),
                     (''tel'', JString ''02 '')]])]),
         lisible = True, inscriptible = True\<rparr>),
      creation = True\<rparr> =
   Inr \<lparr>Contacts = [\<lparr>Nom = ''Dupont'', Prenom = ''Jean'', Tel = ''01''\<rparr>,
                     \<lparr>Nom = ''DUPONT'', Prenom = '' Luc'', Tel = []\<rparr>,
                     \<lparr>Nom = [], Prenom = [], Tel = ''02 ''\<rparr>]\<rparr> \<and>
   \<not> noms_uniques strings_ascii
     \<lparr>Contacts = [\<lparr>Nom = ''Dupont'', Prenom = ''Jean'', Tel = ''01''\<rparr>,
                  \<lparr>Nom = ''DUPONT'', Prenom = '' Luc'', Tel = []\<rparr>,
                  \<lparr>Nom = [], Prenom = [], Tel = ''02 ''\<rparr>]\<rparr>"
proof -
  let ?cs = "[\<lparr>Nom = ''Dupont'', Prenom = ''Jean'', Tel = ''01''\<rparr>,
              \<lparr>Nom = ''DUPONT'', Prenom = '' Luc'', Tel = []\<rparr>,
              \<lparr>Nom = [], Prenom = [], Tel = ''02 ''\<rparr>]"
  let ?f = "\<lparr>contenu = Texte (JObject [(''contacts'', JArray
           [JObject [(''nom'', JString ''Dupont''), (''prenom'', JString ''Jean''),
                     (''tel'', JString ''01'')],
            JObject [(''nom'', JString ''DUPONT''), (''prenom'', JString '' Luc''),
                     (''tel'', JString [])],
            JObject [(''nom'', JString []), (''prenom'', JString []),
                     (''tel'', JString ''02 '')]])]),
         lisible = True, inscriptible = True\<rparr>"
  let ?d = "\<lparr>fichiers = (\<lambda>nom. None)(fichierAnnuaire \<mapsto> ?f), creation = True\<rparr>"
  have h1: "fichiers ?d fichierAnnuaire = Some ?f" by simp
  have h2: "lisible ?f" by simp
  have h3: "contenu ?f = Texte (JObject [(''contacts'', JArray
           (map (\<lambda>c. JObject [(''nom'', JString (Nom c)), (''prenom'', JString (Prenom c)),
                               (''tel'', JString (Tel c))]) ?cs))])" by simp
  have dup: "\<not> noms_uniques strings_ascii \<lparr>Contacts = ?cs\<rparr>" by code_simp
  from chargerAnnuaire_sans_validation [OF h1 h2 h3, of equalFold_ascii] dup
  show ?thesis by simp
qed

subsection \<open>Saving, then loading\<close>

text \<open>
  The coercion of \<^verbatim>\<open>json.Marshal\<close> leaves a string as it is exactly when the string is
  valid UTF-8, and makes it longer otherwise.
\<close>

lemma json_coerce_valide: "utf8_ValidString s \<Longrightarrow> json_coerce s = s"
proof (induction s rule: json_coerce.induct)
  case 1
  then show ?case by simp
next
  case (2 c s)
  show ?case
  proof (cases "utf8_taille (c # s)")
    case None
    with "2.prems" show ?thesis by (simp del: utf8_taille.simps)
  next
    case (Some n)
    with "2.prems" have "utf8_ValidString (drop n (c # s))"
      by (simp del: utf8_taille.simps)
    with "2.IH"(2) [OF Some] have "json_coerce (drop n (c # s)) = drop n (c # s)" by simp
    with Some show ?thesis by (simp del: utf8_taille.simps)
  qed
qed

lemma length_json_coerce: "length s \<le> length (json_coerce s)"
proof (induction s rule: json_coerce.induct)
  case 1
  then show ?case by simp
next
  case (2 c s)
  show ?case
  proof (cases "utf8_taille (c # s)")
    case None
    with "2.IH"(1) show ?thesis by (simp del: utf8_taille.simps)
  next
    case (Some n)
    from "2.IH"(2) [OF Some]
    have "length (drop n (c # s)) \<le> length (json_coerce (drop n (c # s)))" .
    moreover have "length (take n (c # s)) + length (drop n (c # s)) = length (c # s)"
      by (simp del: drop_Cons' take_Cons')
    ultimately show ?thesis using Some by (simp del: utf8_taille.simps)
  qed
qed

lemma json_coerce_non_valide: "\<not> utf8_ValidString s \<Longrightarrow> length s < length (json_coerce s)"
proof (induction s rule: json_coerce.induct)
  case 1
  then show ?case by simp
next
  case (2 c s)
  show ?case
  proof (cases "utf8_taille (c # s)")
    case None
    with length_json_coerce [of s] show ?thesis by (simp del: utf8_taille.simps)
  next
    case (Some n)
    with "2.prems" have "\<not> utf8_ValidString (drop n (c # s))"
      by (simp del: utf8_taille.simps)
    from "2.IH"(2) [OF Some this]
    have "length (drop n (c # s)) < length (json_coerce (drop n (c # s)))" .
    moreover have "length (take n (c # s)) + length (drop n (c # s)) = length (c # s)"
      by (simp del: drop_Cons' take_Cons')
    ultimately show ?thesis using Some by (simp del: utf8_taille.simps)
  qed
qed

lemma json_coerce_fixe: "json_coerce s = s \<longleftrightarrow> utf8_ValidString s"
  using json_coerce_valide [of s] json_coerce_non_valide [of s] by fastforce

text \<open>
  After a save that succeeded, on a file that the process may read, loading gives the
  contacts that were saved, each field coerced to valid UTF-8.
\<close>

lemma json_Unmarshal_marshal:
  "json_Unmarshal equalFold (Texte (marshal_Annuaire a)) a0 =
   Some (a0\<lparr>Contacts := map (\<lambda>c. \<lparr>Nom = json_coerce (Nom c), Prenom = json_coerce (Prenom c),
                                      Tel = json_coerce (Tel c)\<rparr>) (Contacts a)\<rparr>)"
proof -
  have m: "marshal_Contact =
        (\<lambda>c. JObject [(''nom'', JString (json_coerce (Nom c))),
                       (''prenom'', JString (json_coerce (Prenom c))),
                       (''tel'', JString (json_coerce (Tel c)))])"
    by (rule ext) (simp add: marshal_Contact_def)
  show ?thesis
    unfolding marshal_Annuaire_def m by (rule json_Unmarshal_objets)
qed

lemma chargerAnnuaire_apres_sauvegarde:
  assumes ok: "snd (sauvegarderAnnuaire d a) = None"
    and lis: "\<forall>f. fichiers d fichierAnnuaire = Some f \<longrightarrow> lisible f"
  shows "chargerAnnuaire equalFold (fst (sauvegarderAnnuaire d a)) =
         Inr \<lparr>Contacts = map (\<lambda>c. \<lparr>Nom = json_coerce (Nom c), Prenom = json_coerce (Prenom c),
                                    Tel = json_coerce (Tel c)\<rparr>) (Contacts a)\<rparr>"
proof (cases "fichiers d fichierAnnuaire")
  case None
  with ok show ?thesis
    by (simp add: sauvegarderAnnuaire_def json_MarshalIndent_def os_WriteFile_def
          chargerAnnuaire_def os_Stat_IsNotExist_def os_ReadFile_def json_Unmarshal_marshal
          split: if_splits)
next
  case (Some f)
  with lis have "lisible f" by simp
  with Some ok show ?thesis
    by (simp add: sauvegarderAnnuaire_def json_MarshalIndent_def os_WriteFile_def
          chargerAnnuaire_def os_Stat_IsNotExist_def os_ReadFile_def json_Unmarshal_marshal
          split: if_splits)
qed

text \<open>
  Claim C3 says that loading after saving gives the directory that was saved, for every
  directory. A name can hold any bytes (the program takes it from the command line), and
  \<^verbatim>\<open>json.Marshal\<close> replaces a byte that is not valid UTF-8 by U+FFFD: the directory
  with the name \<^verbatim>\<open>"\xff"\<close> is saved, and loaded with the name \<^verbatim>\<open>"\xef\xbf\xbd"\<close>.
\<close>

theorem charger_apres_sauvegarder_counterexample:
  "snd (sauvegarderAnnuaire \<lparr>fichiers = (\<lambda>nom. None), creation = True\<rparr>
          \<lparr>Contacts = [\<lparr>Nom = [CHR 0xFF], Prenom = [], Tel = ''01''\<rparr>]\<rparr>) = None \<and>
   chargerAnnuaire equalFold_ascii
     (fst (sauvegarderAnnuaire \<lparr>fichiers = (\<lambda>nom. None), creation = True\<rparr>
             \<lparr>Contacts = [\<lparr>Nom = [CHR 0xFF], Prenom = [], Tel = ''01''\<rparr>]\<rparr>)) =
   Inr \<lparr>Contacts = [\<lparr>Nom = [CHR 0xEF, CHR 0xBF, CHR 0xBD], Prenom = [], Tel = ''01''\<rparr>]\<rparr> \<and>
   \<lparr>Contacts = [\<lparr>Nom = [CHR 0xEF, CHR 0xBF, CHR 0xBD], Prenom = [], Tel = ''01''\<rparr>]\<rparr> \<noteq>
   \<lparr>Contacts = [\<lparr>Nom = [CHR 0xFF], Prenom = [], Tel = ''01''\<rparr>]\<rparr>"
  by code_simp

text \<open>
  Claim C3, amended. For every directory whose names, first names and telephone numbers
  are valid UTF-8: when \<^verbatim>\<open>sauvegarderAnnuaire\<close> returns no error and the file, if it was
  there before, may be read, \<^verbatim>\<open>chargerAnnuaire\<close> then returns the directory that was
  saved: the same contacts, in the same order, with the same fields. The keys written
  are the tags, so this holds for every folding.
\<close>

theorem charger_apres_sauvegarder:
  assumes "snd (sauvegarderAnnuaire d a) = None"
    and "\<forall>f. fichiers d fichierAnnuaire = Some f \<longrightarrow> lisible f"
    and "\<forall>c\<in>set (Contacts a).
           utf8_ValidString (Nom c) \<and> utf8_ValidString (Prenom c) \<and> utf8_ValidString (Tel c)"
  shows "chargerAnnuaire equalFold (fst (sauvegarderAnnuaire d a)) = Inr a"
proof -
  from assms(3)
  have "map (\<lambda>c. \<lparr>Nom = json_coerce (Nom c), Prenom = json_coerce (Prenom c),
                   Tel = json_coerce (Tel c)\<rparr>) (Contacts a) =
        map (\<lambda>c. \<lparr>Nom = Nom c, Prenom = Prenom c, Tel = Tel c\<rparr>) (Contacts a)"
    by (intro map_cong) (simp_all add: json_coerce_valide)
  then have "map (\<lambda>c. \<lparr>Nom = json_coerce (Nom c), Prenom = json_coerce (Prenom c),
                   Tel = json_coerce (Tel c)\<rparr>) (Contacts a) = Contacts a"
    by (simp add: Contact_eta)
  with chargerAnnuaire_apres_sauvegarde [OF assms(1) assms(2), of equalFold]
  show ?thesis by simp
qed

theorem charger_apres_sauvegarder_witness:
  "snd (sauvegarderAnnuaire \<lparr>fichiers = (\<lambda>nom. None), creation = True\<rparr>
          \<lparr>Contacts = [\<lparr>Nom = ''Dupont'', Prenom = [CHR ''R'', CHR 0xC3, CHR 0xA9, CHR ''m'', CHR ''i''],
                         Tel = ''0123456789''\<rparr>,
                       \<lparr>Nom = ''Martin'', Prenom = [], Tel = ''02''\<rparr>]\<rparr>) = None \<and>
   utf8_ValidString [CHR ''R'', CHR 0xC3, CHR 0xA9, CHR ''m'', CHR ''i''] \<and>
   chargerAnnuaire equalFold_ascii
     (fst (sauvegarderAnnuaire \<lparr>fichiers = (\<lambda>nom. None), creation = True\<rparr>
          \<lparr>Contacts = [\<lparr>Nom = ''Dupont'', Prenom = [CHR ''R'', CHR 0xC3, CHR 0xA9, CHR ''m'', CHR ''i''],
                         Tel = ''0123456789''\<rparr>,
                       \<lparr>Nom = ''Martin'', Prenom = [], Tel = ''02''\<rparr>]\<rparr>)) =
   Inr \<lparr>Contacts = [\<lparr>Nom = ''Dupont'', Prenom = [CHR ''R'', CHR 0xC3, CHR 0xA9, CHR ''m'', CHR ''i''],
                       Tel = ''0123456789''\<rparr>,
                     \<lparr>Nom = ''Martin'', Prenom = [], Tel = ''02''\<rparr>]\<rparr>"
proof -
  let ?d = "\<lparr>fichiers = (\<lambda>nom. None), creation = True\<rparr>"
  let ?a = "\<lparr>Contacts = [\<lparr>Nom = ''Dupont'', Prenom = [CHR ''R'', CHR 0xC3, CHR 0xA9, CHR ''m'', CHR ''i''],
                         Tel = ''0123456789''\<rparr>,
                       \<lparr>Nom = ''Martin'', Prenom = [], Tel = ''02''\<rparr>]\<rparr>"
  have h1: "snd (sauvegarderAnnuaire ?d ?a) = None" by code_simp
  have h2: "\<forall>f. fichiers ?d fichierAnnuaire = Some f \<longrightarrow> lisible f" by simp
  have v: "utf8_ValidString [CHR ''R'', CHR 0xC3, CHR 0xA9, CHR ''m'', CHR ''i'']" by code_simp
  have h3: "\<forall>c\<in>set (Contacts ?a).
           utf8_ValidString (Nom c) \<and> utf8_ValidString (Prenom c) \<and> utf8_ValidString (Tel c)"
    by code_simp
  from charger_apres_sauvegarder [OF h1 h2 h3, of equalFold_ascii] h1 v
  show ?thesis by simp
qed

end
